theory Spec2Isabelle
  imports Complex_Main
begin

section \<open>The sentence summarizer of \<open>backend/src/summarizer.py\<close>\<close>

text \<open>
  The module scores every sentence of a document with four signals (boundary
  probabilities, TextRank, TF-IDF or embedding similarity, position), combines the
  signals with the configured coefficients and selects the best sentences.

  Modelling decisions.
  \<^item> A Python \<open>float\<close> and an entry of a NumPy \<open>float64\<close> array is a \<open>real\<close>, and the
    arithmetic is exact: rounding, overflow and NaN are not modelled, and of underflow
    only that of \<open>np.exp\<close>. A one-dimensional array is a \<open>real list\<close>. Statements about
    the values of sums and quotients are therefore made for scores in \<open>[0, 1]\<close>, where
    the float64 results differ from the exact ones by rounding only; where a statement
    must hold for the rounded value itself, the value is a parameter
    (\<open>init_from_total\<close>).
  \<^item> The optional libraries are parameters, collected in the record \<open>backends\<close>: the three
    availability flags of the module, the tokenizer, \<open>nx.pagerank\<close>, the TF-IDF
    vectorizer followed by \<open>cosine_similarity\<close>, and the sentence-transformers model. A
    library call that raises inside a \<open>try\<close> of the source returns \<open>None\<close>.
  \<^item> \<open>warnings.warn\<close> appends to a list of warnings that the constructor returns.
  \<^item> An exception that escapes is the \<open>Inl\<close> of a sum type.
\<close>

subsection \<open>Python and NumPy primitives\<close>

datatype py_error = ZeroDivisionError

datatype warning =
    WeightsSum real
  | ModelLoadFailed string

text \<open>\<open>int(x)\<close> on a float truncates towards zero.\<close>

definition py_int :: "real \<Rightarrow> int" where
  "py_int x = (if 0 \<le> x then \<lfloor>x\<rfloor> else \<lceil>x\<rceil>)"

text \<open>The slice \<open>xs[:k]\<close>: a negative \<open>k\<close> counts from the end.\<close>

definition slice_to :: "int \<Rightarrow> 'a list \<Rightarrow> 'a list" where
  "slice_to k xs =
     (if 0 \<le> k then take (nat k) xs else take (length xs - nat (- k)) xs)"

text \<open>\<open>np.ones(n) / n\<close>; for \<open>n = 0\<close> the array is empty.\<close>

definition uniform :: "nat \<Rightarrow> real list" where
  "uniform n = replicate n (1 / real n)"

text \<open>\<open>np.zeros(n)\<close>.\<close>

definition zeros :: "nat \<Rightarrow> real list" where
  "zeros n = replicate n 0"

text \<open>\<open>c * v\<close> and \<open>v + w\<close> on arrays of one length.\<close>

definition scale :: "real \<Rightarrow> real list \<Rightarrow> real list" where
  "scale c v = map (\<lambda>x. c * x) v"

definition vadd :: "real list \<Rightarrow> real list \<Rightarrow> real list" where
  "vadd v w = map2 (\<lambda>x y. x + y) v w"

text \<open>
  The step every signal ends with:
  \<^verbatim>\<open>
  if scores.sum() > 0:
      scores = scores / scores.sum()
  else:
      scores = np.ones(len(sentences)) / len(sentences)
  \<close>
  The sum and the quotients are exact here. In float64 a sum of scores beyond
  \<open>1.8e308\<close> is infinite and a sum of scores of both signs can cancel; neither happens
  for scores in \<open>[0, 1]\<close>.
\<close>

definition normalize_scores :: "nat \<Rightarrow> real list \<Rightarrow> real list" where
  "normalize_scores n scores =
     (if sum_list scores > 0 then map (\<lambda>x. x / sum_list scores) scores else uniform n)"

text \<open>
  \<open>list.sort(key=f, reverse=True)\<close> is stable: elements with equal keys keep their
  order. Sorting by the negated key with the stable insertion sort \<open>sort_key\<close> is that
  order.
\<close>

definition sort_desc :: "(nat \<Rightarrow> real) \<Rightarrow> nat list \<Rightarrow> nat list" where
  "sort_desc f xs = sort_key (\<lambda>i. - f i) xs"

text \<open>
  \<open>np.argsort(w)\<close> with the default kind: the indices in ascending order of their
  values. The default kind is not stable, so NumPy does not specify the order of equal
  values; the model puts them in index order, which is what NumPy returns on the two
  equal values of the run of C4 and is not relied on for any longer array.
\<close>

definition argsort :: "real list \<Rightarrow> nat list" where
  "argsort w = sort_key (\<lambda>i. w ! i) [0..<length w]"

subsection \<open>The optional libraries\<close>

text \<open>
  \<^item> \<open>tokenize\<close>: \<open>_tokenize_sentence\<close> (NLTK, or the regular expression).
  \<^item> \<open>pagerank n edges\<close>: \<open>nx.pagerank(G, max_iter=100)\<close> on the graph of nodes
    \<open>0..n-1\<close> and the weighted edges; the result is the dictionary of scores.
  \<^item> \<open>tfidf_cosine sentences\<close>: the body of the \<open>try\<close> of \<open>_compute_tfidf_scores\<close> up to
    \<open>similarities\<close>, one value per sentence.
  \<^item> \<open>load_model name\<close>: whether \<open>SentenceTransformer(name)\<close> returns.
  \<^item> \<open>embed_cosine name sentences\<close>: the body of the \<open>try\<close> of
    \<open>_compute_embedding_scores\<close> up to \<open>similarities\<close>.
\<close>

record backends =
  HAS_NETWORKX :: bool
  HAS_SKLEARN :: bool
  HAS_SENTENCE_TRANSFORMERS :: bool
  tokenize :: "string \<Rightarrow> string list"
  pagerank :: "nat \<Rightarrow> (nat \<times> nat \<times> real) list \<Rightarrow> (nat \<rightharpoonup> real) option"
  tfidf_cosine :: "string list \<Rightarrow> (nat \<Rightarrow> real) option"
  load_model :: "string \<Rightarrow> bool"
  embed_cosine :: "string \<Rightarrow> string list \<Rightarrow> (nat \<Rightarrow> real) option"

subsection \<open>The summarizer object and its constructor\<close>

record summarizer =
  cnn_prob_weight :: real
  textrank_weight :: real
  tfidf_weight :: real
  position_weight :: real
  use_embeddings :: bool
  embedding_model :: "string option"

text \<open>Lines 93 to 102 of \<open>__init__\<close>: the embedding model.\<close>

definition init_embeddings ::
  "backends \<Rightarrow> warning list \<Rightarrow> real \<Rightarrow> real \<Rightarrow> real \<Rightarrow> real \<Rightarrow> bool \<Rightarrow> string
     \<Rightarrow> warning list \<times> summarizer" where
  "init_embeddings B ws c t f p ue name =
     (if ue \<and> HAS_SENTENCE_TRANSFORMERS B then
        (if load_model B name then
           (ws, \<lparr>cnn_prob_weight = c, textrank_weight = t, tfidf_weight = f,
                 position_weight = p, use_embeddings = True, embedding_model = Some name\<rparr>)
         else
           (ws @ [ModelLoadFailed name],
            \<lparr>cnn_prob_weight = c, textrank_weight = t, tfidf_weight = f,
             position_weight = p, use_embeddings = False, embedding_model = None\<rparr>))
      else
        (ws, \<lparr>cnn_prob_weight = c, textrank_weight = t, tfidf_weight = f,
              position_weight = p, use_embeddings = False, embedding_model = None\<rparr>))"

text \<open>
  Lines 86 to 102 of \<open>__init__\<close>, for the value \<open>tot\<close> that line 85 computed as \<open>total\<close>. The
  division \<open>self.cnn_prob_weight /= total\<close> raises ZeroDivisionError when \<open>total\<close> is
  zero; the warning has been issued by then.
\<close>

definition init_from_total ::
  "backends \<Rightarrow> real \<Rightarrow> real \<Rightarrow> real \<Rightarrow> real \<Rightarrow> real \<Rightarrow> bool \<Rightarrow> string
     \<Rightarrow> warning list \<times> (py_error + summarizer)" where
  "init_from_total B tot c t f p ue name =
     (if \<bar>tot - 1\<bar> > 1 / 10 ^ 6 then
        (if tot = 0 then ([WeightsSum tot], Inl ZeroDivisionError)
         else
           (case init_embeddings B [WeightsSum tot]
                   (c / tot) (t / tot) (f / tot) (p / tot) ue name of
              (ws, S) \<Rightarrow> (ws, Inr S)))
      else
        (case init_embeddings B [] c t f p ue name of (ws, S) \<Rightarrow> (ws, Inr S)))"

text \<open>
  \<open>__init__\<close>, with line 85 as the exact sum. The float64 sum of the code is the
  exact sum rounded after each addition: the two agree on the coefficients of the runs
  below, and can differ where the coefficients cancel.
\<close>

definition init ::
  "backends \<Rightarrow> real \<Rightarrow> real \<Rightarrow> real \<Rightarrow> real \<Rightarrow> bool \<Rightarrow> string
     \<Rightarrow> warning list \<times> (py_error + summarizer)" where
  "init B c t f p ue name = init_from_total B (c + t + f + p) c t f p ue name"

subsection \<open>The four signals\<close>

text \<open>The edges of the similarity graph of \<open>_compute_textrank_scores\<close>.\<close>

definition jaccard_edge :: "string list list \<Rightarrow> nat \<Rightarrow> nat \<Rightarrow> (nat \<times> nat \<times> real) list" where
  "jaccard_edge toks i j =
     (let tokens_i = set (toks ! i); tokens_j = set (toks ! j) in
      if card tokens_i = 0 \<or> card tokens_j = 0 then []
      else
        (let intersection = card (tokens_i \<inter> tokens_j);
             union = card (tokens_i \<union> tokens_j);
             similarity = (if union > 0 then real intersection / real union else 0)
         in if similarity > 1 / 10 then [(i, j, similarity)] else []))"

definition similarity_graph :: "string list list \<Rightarrow> (nat \<times> nat \<times> real) list" where
  "similarity_graph toks =
     concat (map (\<lambda>i. concat (map (\<lambda>j. jaccard_edge toks i j) [i + 1..<length toks]))
                 [0..<length toks])"

definition compute_textrank_scores :: "backends \<Rightarrow> string list \<Rightarrow> real list" where
  "compute_textrank_scores B sentences =
     (let n = length sentences in
      if \<not> HAS_NETWORKX B then uniform n
      else if n < 2 then (if n > 0 then uniform n else [])
      else
        (let sentence_tokens = map (tokenize B) sentences;
             scores =
               (case pagerank B n (similarity_graph sentence_tokens) of
                  Some pagerank_scores \<Rightarrow>
                    map (\<lambda>i. case pagerank_scores i of Some v \<Rightarrow> v | None \<Rightarrow> 0) [0..<n]
                | None \<Rightarrow> uniform n)
         in normalize_scores n scores))"

definition compute_tfidf_scores :: "backends \<Rightarrow> string list \<Rightarrow> real list" where
  "compute_tfidf_scores B sentences =
     (let n = length sentences in
      if \<not> HAS_SKLEARN B then uniform n
      else if n = 0 then []
      else
        (case tfidf_cosine B sentences of
           Some similarities \<Rightarrow> normalize_scores n (map similarities [0..<n])
         | None \<Rightarrow> uniform n))"

definition compute_embedding_scores :: "backends \<Rightarrow> summarizer \<Rightarrow> string list \<Rightarrow> real list" where
  "compute_embedding_scores B S sentences =
     (case embedding_model S of
        None \<Rightarrow> compute_tfidf_scores B sentences
      | Some model \<Rightarrow>
          if \<not> use_embeddings S then compute_tfidf_scores B sentences
          else
            (case embed_cosine B model sentences of
               Some similarities \<Rightarrow>
                 normalize_scores (length sentences) (map similarities [0..<length sentences])
             | None \<Rightarrow> compute_tfidf_scores B sentences))"

text \<open>
  \<open>np.exp\<close> on float64 underflows: the result is \<open>0.0\<close> for every argument below
  \<open>-745.14\<close>. The model returns 0 at and below \<open>-746\<close> and the real exponential above;
  the rounding of the results, coarse for the subnormal ones just above the underflow,
  is not modelled.
\<close>

definition np_exp :: "real \<Rightarrow> real" where
  "np_exp x = (if x \<le> - 746 then 0 else exp x)"

text \<open>\<open>np.exp(-np.arange(n) * 0.1)\<close>, before it is normalised.\<close>

definition position_decay :: "nat \<Rightarrow> real list" where
  "position_decay n = map (\<lambda>i. np_exp (- real i * (1 / 10))) [0..<n]"

definition compute_position_scores :: "string list \<Rightarrow> real list" where
  "compute_position_scores sentences =
     (if length sentences = 0 then []
      else (let n = length sentences in normalize_scores n (position_decay n)))"

text \<open>
  The array \<open>scores\<close> of \<open>_compute_cnn_prob_scores\<close> before it is normalised, for a
  non-empty \<open>cnn_probs\<close> and \<open>n\<close> sentences.
\<close>

definition cnn_raw_scores :: "nat \<Rightarrow> real list \<Rightarrow> real list" where
  "cnn_raw_scores n cnn_probs =
     (if length cnn_probs = n then cnn_probs
      else if length cnn_probs > n then take n cnn_probs
      else cnn_probs @ replicate (n - length cnn_probs) (1 / 2))"

definition compute_cnn_prob_scores ::
  "string list \<Rightarrow> string \<Rightarrow> real list option \<Rightarrow> real list" where
  "compute_cnn_prob_scores sentences original_text cnn_probs =
     (let n = length sentences in
      case cnn_probs of
        None \<Rightarrow> (if n > 0 then uniform n else [])
      | Some probs \<Rightarrow>
          if length probs = 0 then (if n > 0 then uniform n else [])
          else normalize_scores n (cnn_raw_scores n probs))"

subsection \<open>Aggregation\<close>

type_synonym components = "string \<rightharpoonup> real list"

definition compute_sentence_weights ::
  "backends \<Rightarrow> summarizer \<Rightarrow> string list \<Rightarrow> string \<Rightarrow> real list option
     \<Rightarrow> real list \<times> components" where
  "compute_sentence_weights B S sentences original_text cnn_probs =
     (if length sentences = 0 then ([], Map.empty)
      else
        (let n = length sentences;
             component_scores = Map.empty;
             (cnn_scores, component_scores) =
               (if cnn_prob_weight S > 0 then
                  (let v = compute_cnn_prob_scores sentences original_text cnn_probs
                   in (v, component_scores(''cnn_prob'' \<mapsto> v)))
                else (zeros n, component_scores));
             (textrank_scores, component_scores) =
               (if textrank_weight S > 0 then
                  (let v = compute_textrank_scores B sentences
                   in (v, component_scores(''textrank'' \<mapsto> v)))
                else (zeros n, component_scores));
             (similarity_scores, component_scores) =
               (if tfidf_weight S > 0 then
                  (if use_embeddings S then
                     (let v = compute_embedding_scores B S sentences
                      in (v, component_scores(''embeddings'' \<mapsto> v)))
                   else
                     (let v = compute_tfidf_scores B sentences
                      in (v, component_scores(''tfidf'' \<mapsto> v))))
                else (zeros n, component_scores));
             (position_scores, component_scores) =
               (if position_weight S > 0 then
                  (let v = compute_position_scores sentences
                   in (v, component_scores(''position'' \<mapsto> v)))
                else (zeros n, component_scores));
             combined_scores =
               vadd (vadd (vadd (scale (cnn_prob_weight S) cnn_scores)
                                (scale (textrank_weight S) textrank_scores))
                          (scale (tfidf_weight S) similarity_scores))
                    (scale (position_weight S) position_scores)
         in (normalize_scores n combined_scores, component_scores)))"

subsection \<open>Selection\<close>

text \<open>
  Lines 411 to 418 of \<open>summarize\<close>: the number of sentences asked for. The products are
  exact here; the float64 product of the code is rounded before \<open>int\<close> truncates it, so
  for a compression ratio the count of the code can differ by one from this one
  (\<open>int(100 * 0.29)\<close> is 28).
\<close>

definition n_select :: "nat \<Rightarrow> real option \<Rightarrow> int option \<Rightarrow> int" where
  "n_select n compression top_k =
     (case top_k of
        Some k \<Rightarrow> min k (int n)
      | None \<Rightarrow>
          (case compression of
             Some r \<Rightarrow> max 1 (py_int (real n * r))
           | None \<Rightarrow> max 2 (py_int (real n * (3 / 10)))))"

text \<open>Lines 420 to 429 of \<open>summarize\<close>: the chosen indices.\<close>

definition selected_indices :: "real list \<Rightarrow> nat \<Rightarrow> int \<Rightarrow> bool \<Rightarrow> nat list" where
  "selected_indices weights n k preserve_order =
     (if preserve_order then
        (let sentence_indices = sort_desc (\<lambda>i. weights ! i) [0..<n]
         in sort (slice_to k sentence_indices))
      else sort (slice_to k (rev (argsort weights))))"

text \<open>
  \<open>summarize\<close>. The source also computes \<open>selected_weights = weights[selected_indices]\<close>
  and discards it; the indices are in range, so the expression cannot raise.
\<close>

definition summarize ::
  "backends \<Rightarrow> summarizer \<Rightarrow> string list \<Rightarrow> string \<Rightarrow> real list option
     \<Rightarrow> real option \<Rightarrow> int option \<Rightarrow> bool
     \<Rightarrow> string list \<times> real list \<times> components" where
  "summarize B S sentences original_text cnn_probs compression top_k preserve_order =
     (if length sentences = 0 then ([], [], Map.empty)
      else
        (case compute_sentence_weights B S sentences original_text cnn_probs of
           (weights, component_scores) \<Rightarrow>
             (let k = n_select (length sentences) compression top_k;
                  chosen = selected_indices weights (length sentences) k preserve_order;
                  selected_sentences = map (\<lambda>i. sentences ! i) chosen
              in (selected_sentences, weights, component_scores))))"

subsection \<open>Predicates and fixtures of the statements\<close>

text \<open>
  A weight vector over \<open>n\<close> sentences: one non-negative entry per sentence, the
  entries summing to 1 within the tolerance \<open>1e-6\<close>.
\<close>

definition weight_vector :: "nat \<Rightarrow> real list \<Rightarrow> bool" where
  "weight_vector n v \<longleftrightarrow>
     length v = n \<and> list_all (\<lambda>x. 0 \<le> x) v \<and> \<bar>sum_list v - 1\<bar> \<le> 1 / 10 ^ 6"

text \<open>
  What the libraries promise on the sentences at hand: the PageRank score of every
  sentence, its TF-IDF cosine similarity to the centroid and, with the model the
  summarizer holds, its embedding cosine similarity are not negative.
\<close>

definition nonneg_libraries :: "backends \<Rightarrow> summarizer \<Rightarrow> string list \<Rightarrow> bool" where
  "nonneg_libraries B S sentences \<longleftrightarrow>
     (case pagerank B (length sentences) (similarity_graph (map (tokenize B) sentences)) of
        None \<Rightarrow> True
      | Some pagerank_scores \<Rightarrow>
          list_all (\<lambda>i. case pagerank_scores i of None \<Rightarrow> True | Some v \<Rightarrow> 0 \<le> v)
            [0..<length sentences]) \<and>
     (case tfidf_cosine B sentences of
        None \<Rightarrow> True
      | Some similarities \<Rightarrow> list_all (\<lambda>i. 0 \<le> similarities i) [0..<length sentences]) \<and>
     (case embedding_model S of
        None \<Rightarrow> True
      | Some model \<Rightarrow>
          (case embed_cosine B model sentences of
             None \<Rightarrow> True
           | Some similarities \<Rightarrow>
               list_all (\<lambda>i. 0 \<le> similarities i) [0..<length sentences]))"

definition nonneg_probs :: "real list option \<Rightarrow> bool" where
  "nonneg_probs cnn_probs \<longleftrightarrow>
     (case cnn_probs of None \<Rightarrow> True | Some probs \<Rightarrow> list_all (\<lambda>p. 0 \<le> p) probs)"

text \<open>The same with the upper bound: probabilities, PageRank scores and cosines in \<open>[0, 1]\<close>.\<close>

definition unit_libraries :: "backends \<Rightarrow> summarizer \<Rightarrow> string list \<Rightarrow> bool" where
  "unit_libraries B S sentences \<longleftrightarrow>
     (case pagerank B (length sentences) (similarity_graph (map (tokenize B) sentences)) of
        None \<Rightarrow> True
      | Some pagerank_scores \<Rightarrow>
          list_all (\<lambda>i. case pagerank_scores i of None \<Rightarrow> True | Some v \<Rightarrow> 0 \<le> v \<and> v \<le> 1)
            [0..<length sentences]) \<and>
     (case tfidf_cosine B sentences of
        None \<Rightarrow> True
      | Some similarities \<Rightarrow>
          list_all (\<lambda>i. 0 \<le> similarities i \<and> similarities i \<le> 1) [0..<length sentences]) \<and>
     (case embedding_model S of
        None \<Rightarrow> True
      | Some model \<Rightarrow>
          (case embed_cosine B model sentences of
             None \<Rightarrow> True
           | Some similarities \<Rightarrow>
               list_all (\<lambda>i. 0 \<le> similarities i \<and> similarities i \<le> 1)
                 [0..<length sentences]))"

definition unit_probs :: "real list option \<Rightarrow> bool" where
  "unit_probs cnn_probs \<longleftrightarrow>
     (case cnn_probs of
        None \<Rightarrow> True
      | Some probs \<Rightarrow> list_all (\<lambda>p. 0 \<le> p \<and> p \<le> 1) probs)"

text \<open>The documented range of the coefficients is 0 to 1; only the upper bound is needed.\<close>

definition coefficients_at_most_one :: "summarizer \<Rightarrow> bool" where
  "coefficients_at_most_one S \<longleftrightarrow>
     cnn_prob_weight S \<le> 1 \<and> textrank_weight S \<le> 1
     \<and> tfidf_weight S \<le> 1 \<and> position_weight S \<le> 1"

text \<open>The module with none of the optional libraries installed.\<close>

definition no_libraries :: backends where
  "no_libraries =
     \<lparr>HAS_NETWORKX = False, HAS_SKLEARN = False, HAS_SENTENCE_TRANSFORMERS = False,
      tokenize = (\<lambda>s. []), pagerank = (\<lambda>n es. None), tfidf_cosine = (\<lambda>ss. None),
      load_model = (\<lambda>name. False), embed_cosine = (\<lambda>name ss. None)\<rparr>"

text \<open>
  A module with every library installed, on stand-ins: a sentence is its own single
  token, PageRank scores node \<open>i\<close> with \<open>1 / (i + 2)\<close>, the TF-IDF similarity of every
  sentence is 1, and the embedding model loads but fails at inference.
\<close>

definition toy_libraries :: backends where
  "toy_libraries =
     \<lparr>HAS_NETWORKX = True, HAS_SKLEARN = True, HAS_SENTENCE_TRANSFORMERS = True,
      tokenize = (\<lambda>s. [s]),
      pagerank = (\<lambda>n es. Some (\<lambda>i. if i < n then Some (1 / (real i + 2)) else None)),
      tfidf_cosine = (\<lambda>ss. Some (\<lambda>i. 1)),
      load_model = (\<lambda>name. True), embed_cosine = (\<lambda>name ss. None)\<rparr>"

text \<open>
  A module whose embedding model gives the first sentence the cosine similarity \<open>-1\<close>
  to the centroid and every other sentence the similarity 1, as the one-dimensional
  embeddings \<open>-1, 2, 2\<close> of three sentences do. networkx is absent.
\<close>

definition signed_embeddings :: backends where
  "signed_embeddings =
     \<lparr>HAS_NETWORKX = False, HAS_SKLEARN = True, HAS_SENTENCE_TRANSFORMERS = True,
      tokenize = (\<lambda>s. [s]), pagerank = (\<lambda>n es. None),
      tfidf_cosine = (\<lambda>ss. Some (\<lambda>i. 1)),
      load_model = (\<lambda>name. True),
      embed_cosine = (\<lambda>name ss. Some (\<lambda>i. if i = 0 then - 1 else 1))\<rparr>"

text \<open>\<open>SentenceSummarizer(0, 0, 1, 0, use_embeddings=True, embedding_model_name='m')\<close>.\<close>

definition embeddings_only :: summarizer where
  "embeddings_only =
     \<lparr>cnn_prob_weight = 0, textrank_weight = 0, tfidf_weight = 1, position_weight = 0,
      use_embeddings = True, embedding_model = Some ''m''\<rparr>"

text \<open>\<open>SentenceSummarizer(1, 0, 0, 0)\<close>: the boundary signal alone.\<close>

definition cnn_only :: summarizer where
  "cnn_only =
     \<lparr>cnn_prob_weight = 1, textrank_weight = 0, tfidf_weight = 0, position_weight = 0,
      use_embeddings = False, embedding_model = None\<rparr>"

text \<open>\<open>SentenceSummarizer(0.5, 0.25, 0.25, 0)\<close>: every signal but the position.\<close>

definition no_position :: summarizer where
  "no_position =
     \<lparr>cnn_prob_weight = 1 / 2, textrank_weight = 1 / 4, tfidf_weight = 1 / 4,
      position_weight = 0, use_embeddings = False, embedding_model = None\<rparr>"

section \<open>Properties of the model\<close>

subsection \<open>Arrays\<close>

lemma length_uniform: "length (uniform n) = n"
  by (simp add: uniform_def)

lemma sum_list_uniform: "0 < n \<Longrightarrow> sum_list (uniform n) = 1"
  by (simp add: uniform_def sum_list_replicate)

lemma uniform_nonneg: "x \<in> set (uniform n) \<Longrightarrow> 0 \<le> x"
  by (auto simp add: uniform_def)

lemma sum_list_divide: "sum_list (map (\<lambda>x. x / c) xs) = sum_list xs / (c::real)"
  by (induction xs) (simp_all add: add_divide_distrib)

lemma length_normalize_scores:
  "length scores = n \<Longrightarrow> length (normalize_scores n scores) = n"
  by (simp add: normalize_scores_def length_uniform)

lemma sum_list_normalize_scores: "0 < n \<Longrightarrow> sum_list (normalize_scores n scores) = 1"
  by (simp add: normalize_scores_def sum_list_divide sum_list_uniform)

lemma normalize_scores_nonneg:
  assumes "\<forall>x \<in> set scores. 0 \<le> x" and "x \<in> set (normalize_scores n scores)"
  shows "0 \<le> x"
proof (cases "sum_list scores > 0")
  case True
  with assms(2) obtain y where "y \<in> set scores" and "x = y / sum_list scores"
    by (auto simp add: normalize_scores_def)
  with True assms(1) show ?thesis by simp
next
  case False
  with assms(2) show ?thesis by (simp add: normalize_scores_def uniform_nonneg)
qed

lemma weight_vector_normalize:
  assumes "0 < n" and "length scores = n" and "\<forall>x \<in> set scores. 0 \<le> x"
  shows "weight_vector n (normalize_scores n scores)"
proof -
  have "\<forall>x \<in> set (normalize_scores n scores). 0 \<le> x"
    using assms(3) normalize_scores_nonneg by blast
  then show ?thesis
    using assms(1,2)
    by (simp add: weight_vector_def list_all_iff length_normalize_scores
        sum_list_normalize_scores)
qed

lemma weight_vector_uniform: "0 < n \<Longrightarrow> weight_vector n (uniform n)"
  using uniform_nonneg [of _ n]
  by (simp add: weight_vector_def list_all_iff length_uniform sum_list_uniform)

lemma length_scale: "length (scale c v) = length v"
  by (simp add: scale_def)

lemma length_vadd: "length v = n \<Longrightarrow> length w = n \<Longrightarrow> length (vadd v w) = n"
  by (simp add: vadd_def)

lemma vadd_nonneg:
  assumes "\<forall>x \<in> set v. 0 \<le> x" and "\<forall>x \<in> set w. 0 \<le> x"
  shows "\<forall>x \<in> set (vadd v w). 0 \<le> x"
proof
  fix x assume "x \<in> set (vadd v w)"
  then obtain a b where "(a, b) \<in> set (zip v w)" and "x = a + b"
    by (auto simp add: vadd_def)
  moreover from this have "a \<in> set v" and "b \<in> set w"
    by (auto dest: set_zip_leftD set_zip_rightD)
  ultimately show "0 \<le> x" using assms by simp
qed

lemma scale_signal_nonneg:
  assumes "0 < c \<Longrightarrow> weight_vector n v"
  shows "\<forall>x \<in> set (scale c (if 0 < c then v else zeros n)). 0 \<le> x"
proof (cases "0 < c")
  case True
  with assms have "\<forall>x \<in> set v. 0 \<le> x" by (simp add: weight_vector_def list_all_iff)
  with True show ?thesis by (auto simp add: scale_def)
next
  case False
  then show ?thesis by (auto simp add: scale_def zeros_def)
qed

subsection \<open>Signals\<close>

lemma length_cnn_raw_scores: "length (cnn_raw_scores n probs) = n"
  by (auto simp add: cnn_raw_scores_def)

lemma cnn_raw_scores_nonneg:
  assumes "\<forall>p \<in> set probs. 0 \<le> p"
  shows "\<forall>x \<in> set (cnn_raw_scores n probs). 0 \<le> x"
  using assms by (auto simp add: cnn_raw_scores_def dest: in_set_takeD)

lemma length_compute_cnn_prob_scores:
  "length (compute_cnn_prob_scores sentences original_text cnn_probs) = length sentences"
proof -
  have raw: "length (normalize_scores n (cnn_raw_scores n probs)) = n" for n probs
    by (simp add: length_normalize_scores length_cnn_raw_scores)
  show ?thesis
  proof (cases cnn_probs)
    case None
    then show ?thesis by (simp add: compute_cnn_prob_scores_def Let_def length_uniform)
  next
    case (Some probs)
    show ?thesis
    proof (cases "probs = []")
      case True
      with Some show ?thesis by (simp add: compute_cnn_prob_scores_def Let_def length_uniform)
    next
      case False
      with Some have "compute_cnn_prob_scores sentences original_text cnn_probs =
          normalize_scores (length sentences) (cnn_raw_scores (length sentences) probs)"
        by (simp add: compute_cnn_prob_scores_def Let_def)
      then show ?thesis by (simp only: raw)
    qed
  qed
qed

lemma weight_vector_cnn:
  assumes "sentences \<noteq> []" and "nonneg_probs cnn_probs"
  shows "weight_vector (length sentences) (compute_cnn_prob_scores sentences original_text cnn_probs)"
proof (cases cnn_probs)
  case None
  with assms(1) show ?thesis
    by (simp add: compute_cnn_prob_scores_def weight_vector_uniform)
next
  case (Some probs)
  with assms(2) have "\<forall>p \<in> set probs. 0 \<le> p"
    by (simp add: nonneg_probs_def list_all_iff)
  then have "\<forall>x \<in> set (cnn_raw_scores (length sentences) probs). 0 \<le> x"
    by (rule cnn_raw_scores_nonneg)
  with assms(1) Some show ?thesis
    by (simp add: compute_cnn_prob_scores_def Let_def weight_vector_uniform
        weight_vector_normalize length_cnn_raw_scores)
qed

lemma length_compute_textrank_scores:
  "length (compute_textrank_scores B sentences) = length sentences"
  by (auto simp add: compute_textrank_scores_def Let_def length_uniform
      length_normalize_scores split: option.splits)

lemma weight_vector_textrank:
  assumes "sentences \<noteq> []" and "nonneg_libraries B S sentences"
  shows "weight_vector (length sentences) (compute_textrank_scores B sentences)"
proof -
  let ?n = "length sentences"
  let ?G = "similarity_graph (map (tokenize B) sentences)"
  have n: "0 < ?n" using assms(1) by simp
  have scores: "weight_vector ?n (normalize_scores ?n
      (case pagerank B ?n ?G of
         Some pagerank_scores \<Rightarrow>
           map (\<lambda>i. case pagerank_scores i of Some v \<Rightarrow> v | None \<Rightarrow> 0) [0..<?n]
       | None \<Rightarrow> uniform ?n))"
  proof (cases "pagerank B ?n ?G")
    case None
    with n show ?thesis
      using uniform_nonneg [of _ ?n]
      by (simp add: weight_vector_normalize length_uniform)
  next
    case (Some m)
    with assms(2)
    have all: "list_all (\<lambda>i. case m i of None \<Rightarrow> True | Some v \<Rightarrow> 0 \<le> v) [0..<?n]"
      by (simp add: nonneg_libraries_def)
    have "0 \<le> (case m i of Some v \<Rightarrow> v | None \<Rightarrow> 0)" if "i < ?n" for i
    proof -
      from all that have "case m i of None \<Rightarrow> True | Some v \<Rightarrow> 0 \<le> v"
        by (simp add: list_all_iff)
      then show ?thesis by (cases "m i") simp_all
    qed
    then have "\<forall>x \<in> set (map (\<lambda>i. case m i of Some v \<Rightarrow> v | None \<Rightarrow> 0) [0..<?n]). 0 \<le> x"
      by auto
    with n Some show ?thesis
      by (simp add: weight_vector_normalize)
  qed
  show ?thesis
    using n scores
    by (simp add: compute_textrank_scores_def Let_def weight_vector_uniform)
qed

lemma length_compute_tfidf_scores:
  "length (compute_tfidf_scores B sentences) = length sentences"
  by (auto simp add: compute_tfidf_scores_def Let_def length_uniform
      length_normalize_scores split: option.splits)

lemma weight_vector_tfidf:
  assumes "sentences \<noteq> []" and "nonneg_libraries B S sentences"
  shows "weight_vector (length sentences) (compute_tfidf_scores B sentences)"
proof (cases "tfidf_cosine B sentences")
  case None
  with assms(1) show ?thesis
    by (simp add: compute_tfidf_scores_def Let_def weight_vector_uniform)
next
  case (Some sim)
  with assms(2) have "list_all (\<lambda>i. 0 \<le> sim i) [0..<length sentences]"
    by (simp add: nonneg_libraries_def)
  then have "\<forall>x \<in> set (map sim [0..<length sentences]). 0 \<le> x"
    by (auto simp add: list_all_iff)
  with assms(1) Some show ?thesis
    by (simp add: compute_tfidf_scores_def Let_def weight_vector_uniform
        weight_vector_normalize)
qed

lemma length_compute_embedding_scores:
  "length (compute_embedding_scores B S sentences) = length sentences"
  by (auto simp add: compute_embedding_scores_def length_compute_tfidf_scores
      length_normalize_scores split: option.splits)

lemma weight_vector_embedding:
  assumes "sentences \<noteq> []" and "nonneg_libraries B S sentences"
  shows "weight_vector (length sentences) (compute_embedding_scores B S sentences)"
proof -
  have emb: "weight_vector (length sentences)
      (normalize_scores (length sentences) (map sim [0..<length sentences]))"
    if "embedding_model S = Some m" and "embed_cosine B m sentences = Some sim" for m sim
  proof -
    from assms(2) that have "list_all (\<lambda>i. 0 \<le> sim i) [0..<length sentences]"
      by (simp add: nonneg_libraries_def)
    then have "\<forall>x \<in> set (map sim [0..<length sentences]). 0 \<le> x"
      by (auto simp add: list_all_iff)
    with assms(1) show ?thesis by (simp add: weight_vector_normalize)
  qed
  show ?thesis
    using weight_vector_tfidf [OF assms] emb
    by (auto simp add: compute_embedding_scores_def split: option.splits)
qed

lemma np_exp_nonneg: "0 \<le> np_exp x"
  by (simp add: np_exp_def)



lemma length_compute_position_scores:
  "length (compute_position_scores sentences) = length sentences"
  by (simp add: compute_position_scores_def Let_def length_normalize_scores position_decay_def)

lemma weight_vector_position:
  assumes "sentences \<noteq> []"
  shows "weight_vector (length sentences) (compute_position_scores sentences)"
proof -
  have "\<forall>x \<in> set (position_decay (length sentences)). 0 \<le> x"
    by (auto simp add: position_decay_def np_exp_nonneg)
  with assms show ?thesis
    by (simp add: compute_position_scores_def Let_def weight_vector_normalize
        position_decay_def)
qed

subsection \<open>Aggregation\<close>

lemma fst_compute_sentence_weights:
  assumes "sentences \<noteq> []"
  shows "fst (compute_sentence_weights B S sentences original_text cnn_probs) =
    normalize_scores (length sentences)
      (vadd (vadd (vadd
        (scale (cnn_prob_weight S)
           (if cnn_prob_weight S > 0 then compute_cnn_prob_scores sentences original_text cnn_probs
            else zeros (length sentences)))
        (scale (textrank_weight S)
           (if textrank_weight S > 0 then compute_textrank_scores B sentences
            else zeros (length sentences))))
        (scale (tfidf_weight S)
           (if tfidf_weight S > 0 then
              (if use_embeddings S then compute_embedding_scores B S sentences
               else compute_tfidf_scores B sentences)
            else zeros (length sentences))))
        (scale (position_weight S)
           (if position_weight S > 0 then compute_position_scores sentences
            else zeros (length sentences))))"
  using assms by (simp add: compute_sentence_weights_def Let_def)

lemma snd_compute_sentence_weights:
  assumes "sentences \<noteq> []"
    and "snd (compute_sentence_weights B S sentences original_text cnn_probs) name = Some v"
  shows "v = compute_cnn_prob_scores sentences original_text cnn_probs
       \<or> v = compute_textrank_scores B sentences
       \<or> v = compute_embedding_scores B S sentences
       \<or> v = compute_tfidf_scores B sentences
       \<or> v = compute_position_scores sentences"
  using assms by (auto simp add: compute_sentence_weights_def Let_def split: if_splits)

lemma length_fst_compute_sentence_weights:
  "length (fst (compute_sentence_weights B S sentences original_text cnn_probs)) = length sentences"
proof (cases "sentences = []")
  case True
  then show ?thesis by (simp add: compute_sentence_weights_def)
next
  case False
  show ?thesis
    unfolding fst_compute_sentence_weights [OF False]
    by (intro length_normalize_scores length_vadd)
      (simp_all add: length_scale zeros_def length_compute_cnn_prob_scores
        length_compute_textrank_scores length_compute_embedding_scores
        length_compute_tfidf_scores length_compute_position_scores)
qed

lemma unit_probs_nonneg: "unit_probs cnn_probs \<Longrightarrow> nonneg_probs cnn_probs"
  by (auto simp add: unit_probs_def nonneg_probs_def list_all_iff split: option.splits)

lemma unit_libraries_nonneg:
  assumes "unit_libraries B S sentences"
  shows "nonneg_libraries B S sentences"
  using assms
  by (auto simp add: unit_libraries_def nonneg_libraries_def list_all_iff
      split: option.splits)

lemma compute_sentence_weights_nonneg:
  assumes "sentences \<noteq> []" and "nonneg_probs cnn_probs" and "nonneg_libraries B S sentences"
  shows "weight_vector (length sentences)
           (fst (compute_sentence_weights B S sentences original_text cnn_probs))
       \<and> (\<forall>name v.
            snd (compute_sentence_weights B S sentences original_text cnn_probs) name = Some v
            \<longrightarrow> weight_vector (length sentences) v)"
proof -
  let ?n = "length sentences"
  have n: "0 < ?n" using assms(1) by simp
  note wv = weight_vector_cnn [OF assms(1,2), of original_text]
    weight_vector_textrank [OF assms(1,3)]
    weight_vector_tfidf [OF assms(1,3)] weight_vector_embedding [OF assms(1,3)]
    weight_vector_position [OF assms(1)]
  have comps: "weight_vector ?n v"
    if "snd (compute_sentence_weights B S sentences original_text cnn_probs) name = Some v"
    for name v
    using snd_compute_sentence_weights [OF assms(1) that] wv by auto
  have "weight_vector ?n (fst (compute_sentence_weights B S sentences original_text cnn_probs))"
    unfolding fst_compute_sentence_weights [OF assms(1)]
  proof (intro weight_vector_normalize n length_vadd vadd_nonneg)
    show "\<forall>x \<in> set (scale (cnn_prob_weight S)
        (if 0 < cnn_prob_weight S
         then compute_cnn_prob_scores sentences original_text cnn_probs
         else zeros ?n)). 0 \<le> x"
      by (rule scale_signal_nonneg) (simp add: wv)
    show "\<forall>x \<in> set (scale (textrank_weight S)
        (if 0 < textrank_weight S then compute_textrank_scores B sentences
         else zeros ?n)). 0 \<le> x"
      by (rule scale_signal_nonneg) (simp add: wv)
    show "\<forall>x \<in> set (scale (tfidf_weight S)
        (if 0 < tfidf_weight S then
           (if use_embeddings S then compute_embedding_scores B S sentences
            else compute_tfidf_scores B sentences)
         else zeros ?n)). 0 \<le> x"
      by (rule scale_signal_nonneg) (simp add: wv)
    show "\<forall>x \<in> set (scale (position_weight S)
        (if 0 < position_weight S then compute_position_scores sentences
         else zeros ?n)). 0 \<le> x"
      by (rule scale_signal_nonneg) (simp add: wv)
  qed (simp_all add: length_scale zeros_def length_compute_cnn_prob_scores
        length_compute_textrank_scores length_compute_embedding_scores
        length_compute_tfidf_scores length_compute_position_scores)
  with comps show ?thesis by blast
qed

subsection \<open>Selection\<close>

lemma distinct_slice_to: "distinct xs \<Longrightarrow> distinct (slice_to k xs)"
  by (simp add: slice_to_def)

lemma set_slice_to: "set (slice_to k xs) \<subseteq> set xs"
  by (auto simp add: slice_to_def dest: in_set_takeD)

lemma length_slice_to:
  "length (slice_to k xs) =
     (if 0 \<le> k then min (nat k) (length xs) else length xs - nat (- k))"
  by (simp add: slice_to_def min.commute)

lemma selected_indices_ascending:
  assumes "length weights = n"
  shows "sorted_wrt (<) (selected_indices weights n k po)"
    and "\<forall>i \<in> set (selected_indices weights n k po). i < n"
proof -
  have d: "distinct (sort_desc (\<lambda>i. weights ! i) [0..<n])" "distinct (rev (argsort weights))"
    by (simp_all add: sort_desc_def argsort_def)
  have s: "set (sort_desc (\<lambda>i. weights ! i) [0..<n]) = {0..<n}"
      "set (rev (argsort weights)) = {0..<n}"
    using assms by (simp_all add: sort_desc_def argsort_def)
  show "sorted_wrt (<) (selected_indices weights n k po)"
    using d by (simp add: strict_sorted_iff selected_indices_def Let_def distinct_slice_to)
  show "\<forall>i \<in> set (selected_indices weights n k po). i < n"
    using s set_slice_to [of k "sort_desc (\<lambda>i. weights ! i) [0..<n]"]
      set_slice_to [of k "rev (argsort weights)"]
    by (auto simp add: selected_indices_def Let_def)
qed

lemma fst_summarize:
  assumes "sentences \<noteq> []"
  shows "fst (summarize B S sentences original_text cnn_probs compression top_k preserve_order) =
      map (\<lambda>i. sentences ! i)
        (selected_indices (fst (compute_sentence_weights B S sentences original_text cnn_probs))
           (length sentences) (n_select (length sentences) compression top_k) preserve_order)"
  using assms by (simp add: summarize_def Let_def split: prod.splits)

lemma length_selected_indices:
  assumes "length weights = n"
  shows "length (selected_indices weights n k preserve_order) =
     (if 0 \<le> k then min (nat k) n else n - nat (- k))"
  using assms
  by (simp add: selected_indices_def Let_def length_slice_to sort_desc_def argsort_def)

text \<open>
  The number of sentences \<open>summarize\<close> returns, in terms of the count it resolved:
  the slice caps a count above \<open>n\<close>, returns nothing for the count 0 and drops the
  last \<open>-k\<close> ranked sentences for a negative count \<open>k\<close>.
\<close>

lemma summarize_count:
  assumes "sentences \<noteq> []"
  shows "length (fst (summarize B S sentences original_text cnn_probs compression top_k
                        preserve_order)) =
     (if 0 \<le> n_select (length sentences) compression top_k
      then min (nat (n_select (length sentences) compression top_k)) (length sentences)
      else length sentences - nat (- n_select (length sentences) compression top_k))"
  by (simp add: fst_summarize [OF assms]
      length_selected_indices [OF length_fst_compute_sentence_weights])

text \<open>The count resolved from an explicit \<open>top_k\<close> and by default.\<close>

lemma n_select_in_range:
  "n_select n compression (Some k) = min k (int n)"
  "n_select n None None = max 2 \<lfloor>real n * (3 / 10)\<rfloor>"
  by (simp_all add: n_select_def py_int_def)

subsection \<open>Ties in the ranking\<close>

lemma sort_key_prefix_closed:
  fixes f :: "nat \<Rightarrow> real"
  assumes "i < j" and "j < n" and "f i \<le> f j"
    and dec: "sort_key f [0..<n] = us @ vs" and "j \<in> set us"
  shows "i \<in> set us"
proof (rule ccontr)
  assume "i \<notin> set us"
  have "i \<in> set (sort_key f [0..<n])" using assms(1,2) by simp
  with dec \<open>i \<notin> set us\<close> have "i \<in> set vs" by simp
  then obtain bs cs where vs: "vs = bs @ i # cs" by (meson split_list)
  from \<open>j \<in> set us\<close> obtain as bs' where us: "us = as @ j # bs'" by (meson split_list)
  have "sorted (map f (sort_key f [0..<n]))" by (rule sorted_sort_key)
  then have "sorted (map f (us @ vs))" by (simp only: dec)
  then have "f j \<le> f i" by (simp add: us vs sorted_append)
  with assms(3) have eq: "f i = f j" by simp
  have "filter (\<lambda>y. f y = f j) (sort_key f [0..<n]) = filter (\<lambda>y. f y = f j) [0..<n]"
    by (rule sort_key_stable)
  then have "filter (\<lambda>y. f y = f j) (us @ vs) = filter (\<lambda>y. f y = f j) [0..<n]"
    by (simp only: dec)
  moreover have "sorted_wrt (<) (filter (\<lambda>y. f y = f j) [0..<n])"
    by (rule sorted_wrt_filter) (rule sorted_wrt_upt)
  ultimately have "sorted_wrt (<) (filter (\<lambda>y. f y = f j) (us @ vs))" by simp
  then have "j < i" using eq by (simp add: us vs sorted_wrt_append)
  with assms(1) show False by simp
qed

lemma slice_to_take: "\<exists>m. slice_to k xs = take m xs"
  by (cases "0 \<le> k") (auto simp add: slice_to_def)

text \<open>
  With \<open>preserve_order=True\<close> the ranking is stable: a sentence is selected before
  every later sentence of the same or a smaller weight.
\<close>

lemma selected_indices_stable:
  assumes "i < j" and "j < n" and "weights ! j \<le> weights ! i"
    and "j \<in> set (selected_indices weights n k True)"
  shows "i \<in> set (selected_indices weights n k True)"
proof -
  let ?f = "\<lambda>i. - (weights ! i)"
  let ?zs = "sort_key ?f [0..<n]"
  obtain m where m: "slice_to k ?zs = take m ?zs"
    using slice_to_take by blast
  have sel: "set (selected_indices weights n k True) = set (take m ?zs)"
    by (simp add: selected_indices_def sort_desc_def Let_def m)
  have dec: "?zs = take m ?zs @ drop m ?zs" by simp
  from assms(3) have key: "?f i \<le> ?f j" by simp
  from assms(4) have "j \<in> set (take m ?zs)" by (simp only: sel)
  with assms(1,2) key dec have "i \<in> set (take m ?zs)"
    by (rule sort_key_prefix_closed)
  then show ?thesis by (simp only: sel)
qed

subsection \<open>Concrete runs\<close>

lemmas run_defs = summarize_def compute_sentence_weights_def compute_cnn_prob_scores_def
  compute_textrank_scores_def compute_tfidf_scores_def compute_position_scores_def
  similarity_graph_def jaccard_edge_def
  normalize_scores_def uniform_def zeros_def scale_def vadd_def n_select_def
  selected_indices_def sort_desc_def argsort_def slice_to_def cnn_raw_scores_def py_int_def
  cnn_only_def no_position_def no_libraries_def toy_libraries_def Let_def

lemma toy_run:
  "compute_textrank_scores toy_libraries [''a'', ''b''] = [3 / 5, 2 / 5]
   \<and> compute_tfidf_scores toy_libraries [''a'', ''b''] = [1 / 2, 1 / 2]
   \<and> fst (compute_sentence_weights toy_libraries no_position [''a'', ''b''] ''''
            (Some [1 / 4, 3 / 4])) = [2 / 5, 3 / 5]"
  by (simp add: run_defs)

text \<open>The summarizer of the run with signed similarities is what the constructor returns.\<close>

lemma embeddings_only_constructed:
  "init signed_embeddings 0 0 1 0 True ''m'' = ([], Inr embeddings_only)"
  by (simp add: init_def init_from_total_def init_embeddings_def signed_embeddings_def
      embeddings_only_def)

section \<open>The claims\<close>

text \<open>
  C1 (the code departs from the claim). The claim: for a non-empty sentence list,
  \<open>summarize\<close> selects at least one sentence and an explicit \<open>top_k\<close> is clamped to
  \<open>[1, sentence count]\<close>. The code computes \<open>min(top_k, len(sentences))\<close> with no lower
  bound, where the two sibling branches apply \<open>max(1, ...)\<close> and \<open>max(2, ...)\<close>: with
  \<open>top_k = 0\<close> the summary of three sentences is empty, and with \<open>top_k = -1\<close> the slice
  \<open>[:-1]\<close> returns two sentences.
\<close>

theorem C1_top_k_not_clamped:
  "fst (summarize no_libraries cnn_only [''a'', ''b'', ''c''] '''' None None (Some 0) True) = []
   \<and> fst (summarize no_libraries cnn_only [''a'', ''b'', ''c''] '''' None None (Some (- 1)) True)
       = [''a'', ''b'']"
  by (simp add: run_defs)

text \<open>
  C2 (corrected). The claim: a negative coefficient makes construction fail with an
  explicit error. The constructor validates nothing: the coefficients \<open>-0.5, 0.5, 0.5, 0.5\<close>
  sum to 1 and are stored as they are, without error or warning.
\<close>

theorem C2_negative_weight_accepted:
  "init no_libraries (- (1 / 2)) (1 / 2) (1 / 2) (1 / 2) False '''' =
     ([], Inr \<lparr>cnn_prob_weight = - (1 / 2), textrank_weight = 1 / 2, tfidf_weight = 1 / 2,
               position_weight = 1 / 2, use_embeddings = False, embedding_model = None\<rparr>)"
  by (simp add: init_def init_from_total_def init_embeddings_def no_libraries_def)

text \<open>
  C2 as amended: construction rejects no coefficient for its sign or range. Whatever
  the signs of the coefficients, whenever the total that line 85 computed from them is
  not zero, construction returns a summarizer: when that total is within \<open>1e-6\<close> of 1
  the coefficients are stored as given and no weight warning is issued, otherwise the
  weight warning is issued. In particular no exception escapes for coefficients that are
  not negative and have a positive sum. The statement is on \<open>init_from_total\<close>, so it
  holds for the rounded total of the code as for the exact one; the sum of numbers that
  are not negative, one of them positive, is positive in float64 too.
\<close>

theorem C2_init_accepts:
  "(tot \<noteq> 0 \<longrightarrow>
      (\<exists>ws S. init_from_total B tot c t f p ue name = (ws, Inr S) \<and>
         (if \<bar>tot - 1\<bar> > 1 / 10 ^ 6 then WeightsSum tot \<in> set ws
          else cnn_prob_weight S = c \<and> textrank_weight S = t
             \<and> tfidf_weight S = f \<and> position_weight S = p
             \<and> (\<forall>x. WeightsSum x \<notin> set ws))))
   \<and> (0 \<le> c \<and> 0 \<le> t \<and> 0 \<le> f \<and> 0 \<le> p \<and> 0 < c + t + f + p \<longrightarrow>
        (\<exists>ws S. init B c t f p ue name = (ws, Inr S)))"
proof (intro conjI impI)
  assume "tot \<noteq> 0"
  then show "\<exists>ws S. init_from_total B tot c t f p ue name = (ws, Inr S) \<and>
         (if \<bar>tot - 1\<bar> > 1 / 10 ^ 6 then WeightsSum tot \<in> set ws
          else cnn_prob_weight S = c \<and> textrank_weight S = t
             \<and> tfidf_weight S = f \<and> position_weight S = p
             \<and> (\<forall>x. WeightsSum x \<notin> set ws))"
    by (auto simp add: init_from_total_def init_embeddings_def)
next
  assume "0 \<le> c \<and> 0 \<le> t \<and> 0 \<le> f \<and> 0 \<le> p \<and> 0 < c + t + f + p"
  then have "c + t + f + p \<noteq> 0" by simp
  then show "\<exists>ws S. init B c t f p ue name = (ws, Inr S)"
    by (auto simp add: init_def init_from_total_def init_embeddings_def)
qed

theorem C2_init_accepts_witness:
  "(2 \<noteq> (0::real))
   \<and> (\<exists>ws S. init_from_total no_libraries 2 (- 1) 1 1 1 False '''' = (ws, Inr S)
        \<and> WeightsSum 2 \<in> set ws)
   \<and> ((0::real) \<le> 1 / 10 \<and> (0::real) < 1 / 10 + 1 / 10 + 1 / 10 + 1 / 10)
   \<and> (\<exists>ws S. init no_libraries (1 / 10) (1 / 10) (1 / 10) (1 / 10) False '''' = (ws, Inr S))"
proof -
  have h: "2 \<noteq> (0::real)" by simp
  have g: "(0::real) \<le> 1 / 10 \<and> (0::real) \<le> 1 / 10 \<and> (0::real) \<le> 1 / 10 \<and> (0::real) \<le> 1 / 10
      \<and> (0::real) < 1 / 10 + 1 / 10 + 1 / 10 + 1 / 10"
    by simp
  from C2_init_accepts [of 2 no_libraries "- 1" 1 1 1 False "''''"] h
  have a: "\<exists>ws S. init_from_total no_libraries 2 (- 1) 1 1 1 False '''' = (ws, Inr S)
        \<and> WeightsSum 2 \<in> set ws"
    by simp
  from C2_init_accepts [of 2 no_libraries "1 / 10" "1 / 10" "1 / 10" "1 / 10" False "''''"] g
  have b: "\<exists>ws S. init no_libraries (1 / 10) (1 / 10) (1 / 10) (1 / 10) False '''' = (ws, Inr S)"
    by blast
  from a b h g show ?thesis by blast
qed

text \<open>
  C3 (corrected). The claim: every signal vector and the combined vector have
  non-negative entries. Neither the boundary probabilities nor the similarities of the
  libraries are checked or clamped. With \<open>cnn_probs = [-1, 3]\<close> over two sentences the
  boundary signal and the combined vector are \<open>[-0.5, 1.5]\<close>. With an embedding model
  whose cosine similarities to the centroid are \<open>-1, 1, 1\<close> (cosines range over
  \<open>[-1, 1]\<close>) the vector recorded under \<open>embeddings\<close> and the combined vector are
  \<open>[-1, 1, 1]\<close>.
\<close>

theorem C3_negative_entry:
  "fst (compute_sentence_weights no_libraries cnn_only [''a'', ''b''] '''' (Some [- 1, 3]))
     = [- (1 / 2), 3 / 2]
   \<and> snd (compute_sentence_weights no_libraries cnn_only [''a'', ''b''] '''' (Some [- 1, 3]))
       ''cnn_prob'' = Some [- (1 / 2), 3 / 2]
   \<and> fst (compute_sentence_weights signed_embeddings embeddings_only [''a'', ''b'', ''c'']
            '''' None) = [- 1, 1, 1]
   \<and> snd (compute_sentence_weights signed_embeddings embeddings_only [''a'', ''b'', ''c'']
            '''' None) ''embeddings'' = Some [- 1, 1, 1]"
  by (simp add: run_defs compute_embedding_scores_def signed_embeddings_def
      embeddings_only_def)

text \<open>
  C3 as amended: for every non-empty sentence list and every \<open>cnn_probs\<close>, libraries and
  coefficients, the combined vector and every vector recorded in the component map have
  one entry per sentence. When moreover the entries of \<open>cnn_probs\<close> are probabilities
  in \<open>[0, 1]\<close>, the raw scores of the libraries on these sentences lie in \<open>[0, 1]\<close> and
  no coefficient exceeds 1, these vectors have no negative entry and sum to 1 within
  \<open>1e-6\<close>. The lower bounds are what the two runs above force; the upper bounds are
  the ranges of probabilities, PageRank scores, cosines and the documented coefficients,
  within which the float64 sums of the code stay finite, as the exact sums of the model
  always are.
\<close>

theorem C3_weight_vectors:
  assumes "sentences \<noteq> []"
  shows "length (fst (compute_sentence_weights B S sentences original_text cnn_probs))
           = length sentences
       \<and> (\<forall>name v.
            snd (compute_sentence_weights B S sentences original_text cnn_probs) name = Some v
            \<longrightarrow> length v = length sentences)
       \<and> (unit_probs cnn_probs \<and> unit_libraries B S sentences \<and> coefficients_at_most_one S
            \<longrightarrow>
            weight_vector (length sentences)
              (fst (compute_sentence_weights B S sentences original_text cnn_probs))
            \<and> (\<forall>name v.
                 snd (compute_sentence_weights B S sentences original_text cnn_probs) name
                   = Some v
                 \<longrightarrow> weight_vector (length sentences) v))"
proof (intro conjI impI allI)
  show "length (fst (compute_sentence_weights B S sentences original_text cnn_probs))
      = length sentences"
    by (rule length_fst_compute_sentence_weights)
  show "length v = length sentences"
    if "snd (compute_sentence_weights B S sentences original_text cnn_probs) name = Some v"
    for name v
    using snd_compute_sentence_weights [OF assms that]
    by (auto simp add: length_compute_cnn_prob_scores length_compute_textrank_scores
        length_compute_embedding_scores length_compute_tfidf_scores
        length_compute_position_scores)
next
  assume h: "unit_probs cnn_probs \<and> unit_libraries B S sentences \<and> coefficients_at_most_one S"
  then have "nonneg_probs cnn_probs" and "nonneg_libraries B S sentences"
    by (simp_all add: unit_probs_nonneg unit_libraries_nonneg)
  with assms
  have wv: "weight_vector (length sentences)
           (fst (compute_sentence_weights B S sentences original_text cnn_probs))
       \<and> (\<forall>name v.
            snd (compute_sentence_weights B S sentences original_text cnn_probs) name = Some v
            \<longrightarrow> weight_vector (length sentences) v)"
    by (rule compute_sentence_weights_nonneg)
  from wv show "weight_vector (length sentences)
           (fst (compute_sentence_weights B S sentences original_text cnn_probs))"
    by blast
  show "weight_vector (length sentences) v"
    if "snd (compute_sentence_weights B S sentences original_text cnn_probs) name = Some v"
    for name v
    using wv that by blast
qed

theorem C3_weight_vectors_witness:
  "[''a'', ''b''] \<noteq> ([] :: string list)
   \<and> unit_probs (Some [1 / 4, 3 / 4])
   \<and> unit_libraries toy_libraries no_position [''a'', ''b'']
   \<and> coefficients_at_most_one no_position
   \<and> weight_vector (length [''a'', ''b''])
        (fst (compute_sentence_weights toy_libraries no_position [''a'', ''b''] ''''
                (Some [1 / 4, 3 / 4])))
   \<and> weight_vector (length [''a'', ''b''])
        (compute_textrank_scores toy_libraries [''a'', ''b''])"
proof -
  have h1: "[''a'', ''b''] \<noteq> ([] :: string list)" by simp
  have h2: "unit_probs (Some [1 / 4, 3 / 4])" by (simp add: unit_probs_def)
  have h3: "unit_libraries toy_libraries no_position [''a'', ''b'']"
    by (simp add: unit_libraries_def toy_libraries_def no_position_def)
  have h4: "coefficients_at_most_one no_position"
    by (simp add: coefficients_at_most_one_def no_position_def)
  have c: "snd (compute_sentence_weights toy_libraries no_position [''a'', ''b''] ''''
                  (Some [1 / 4, 3 / 4])) ''textrank''
           = Some (compute_textrank_scores toy_libraries [''a'', ''b''])"
    by (simp add: compute_sentence_weights_def no_position_def Let_def)
  from C3_weight_vectors [OF h1, of toy_libraries no_position "''''" "Some [1 / 4, 3 / 4]"]
    c h1 h2 h3 h4
  show ?thesis by blast
qed

text \<open>
  C4 (the code departs from the claim). The claim: in both modes the ranking breaks
  ties in favour of the smaller index. With \<open>preserve_order=False\<close> the code reverses
  an ascending \<open>np.argsort\<close>, so of two sentences of equal weight the one with the
  larger index ranks first: \<open>top_k = 1\<close> selects the second sentence, where the
  stable descending sort of \<open>preserve_order=True\<close> selects the first. The lemma
  \<open>selected_indices_stable\<close> states the ranking of \<open>preserve_order=True\<close> for every
  input.
\<close>

theorem C4_tie_break_by_mode:
  "fst (summarize no_libraries cnn_only [''a'', ''b''] '''' None None (Some 1) False) = [''b'']
   \<and> fst (summarize no_libraries cnn_only [''a'', ''b''] '''' None None (Some 1) True) = [''a'']
   \<and> fst (compute_sentence_weights no_libraries cnn_only [''a'', ''b''] '''' None)
       = [1 / 2, 1 / 2]"
  by (simp add: run_defs)

text \<open>
  C5 (confirmed). For every non-empty input and both values of \<open>preserve_order\<close>, the
  sentences \<open>summarize\<close> returns are the sentences at the chosen indices, and the chosen
  indices are strictly ascending indices of the sentence list: the output is in
  document order, never in an order of weights.
\<close>

theorem C5_summarize_ascending:
  assumes "sentences \<noteq> []"
  shows "fst (summarize B S sentences original_text cnn_probs compression top_k preserve_order) =
      map (\<lambda>i. sentences ! i)
        (selected_indices (fst (compute_sentence_weights B S sentences original_text cnn_probs))
           (length sentences) (n_select (length sentences) compression top_k) preserve_order)
    \<and> sorted_wrt (<)
        (selected_indices (fst (compute_sentence_weights B S sentences original_text cnn_probs))
           (length sentences) (n_select (length sentences) compression top_k) preserve_order)
    \<and> (\<forall>i \<in> set
        (selected_indices (fst (compute_sentence_weights B S sentences original_text cnn_probs))
           (length sentences) (n_select (length sentences) compression top_k) preserve_order).
        i < length sentences)"
proof (intro conjI)
  show "fst (summarize B S sentences original_text cnn_probs compression top_k preserve_order) =
      map (\<lambda>i. sentences ! i)
        (selected_indices (fst (compute_sentence_weights B S sentences original_text cnn_probs))
           (length sentences) (n_select (length sentences) compression top_k) preserve_order)"
    by (rule fst_summarize [OF assms])
  show "sorted_wrt (<)
        (selected_indices (fst (compute_sentence_weights B S sentences original_text cnn_probs))
           (length sentences) (n_select (length sentences) compression top_k) preserve_order)"
    by (rule selected_indices_ascending(1) [OF length_fst_compute_sentence_weights])
  show "\<forall>i \<in> set
        (selected_indices (fst (compute_sentence_weights B S sentences original_text cnn_probs))
           (length sentences) (n_select (length sentences) compression top_k) preserve_order).
        i < length sentences"
    by (rule selected_indices_ascending(2) [OF length_fst_compute_sentence_weights])
qed

theorem C5_summarize_ascending_witness:
  "[''a'', ''b'', ''c''] \<noteq> ([] :: string list)
   \<and> fst (summarize no_libraries cnn_only [''a'', ''b'', ''c''] ''''
            (Some [3 / 10, 1 / 5, 1 / 2]) None (Some 2) False) = [''a'', ''c'']
   \<and> fst (summarize no_libraries cnn_only [''a'', ''b'', ''c''] ''''
            (Some [3 / 10, 1 / 5, 1 / 2]) None (Some 2) True) = [''a'', ''c'']
   \<and> sorted_wrt (<)
        (selected_indices
           (fst (compute_sentence_weights no_libraries cnn_only [''a'', ''b'', ''c''] ''''
                   (Some [3 / 10, 1 / 5, 1 / 2])))
           (length [''a'', ''b'', ''c'']) (n_select (length [''a'', ''b'', ''c'']) None (Some 2))
           False)"
proof -
  have h: "[''a'', ''b'', ''c''] \<noteq> ([] :: string list)" by simp
  have run: "fst (summarize no_libraries cnn_only [''a'', ''b'', ''c''] ''''
            (Some [3 / 10, 1 / 5, 1 / 2]) None (Some 2) False) = [''a'', ''c'']"
    "fst (summarize no_libraries cnn_only [''a'', ''b'', ''c''] ''''
            (Some [3 / 10, 1 / 5, 1 / 2]) None (Some 2) True) = [''a'', ''c'']"
    by (simp_all add: run_defs)
  from C5_summarize_ascending [OF h, of no_libraries cnn_only "''''"
      "Some [3 / 10, 1 / 5, 1 / 2]" None "Some 2" False] h run
  show ?thesis by blast
qed

text \<open>
  C6 (confirmed). The boundary signal over the sentences. An absent or empty
  probability sequence gives the uniform distribution. A sequence of the length of the
  sentence list is used as it is. A shorter one is followed by 0.5 at every further
  position before normalisation. A longer one is cut to its first values, one per
  sentence, and the result is that of the cut sequence. For a sequence of probabilities
  (entries in \<open>[0, 1]\<close>) the scores are replaced by the uniform distribution when their
  sum is 0 and divided by their sum otherwise, and the result sums to 1 within \<open>1e-6\<close>.
  The last two statements are made for probabilities, as the claim is: there the sums
  of the code are finite and positive whenever those of the model are.
\<close>

theorem C6_boundary_signal:
  "compute_cnn_prob_scores sentences original_text None = uniform (length sentences)
   \<and> compute_cnn_prob_scores sentences original_text (Some []) = uniform (length sentences)
   \<and> (length probs = length sentences \<longrightarrow> cnn_raw_scores (length sentences) probs = probs)
   \<and> (length probs < length sentences \<longrightarrow>
        cnn_raw_scores (length sentences) probs
          = probs @ replicate (length sentences - length probs) (1 / 2)
        \<and> (\<forall>i. length probs \<le> i \<and> i < length sentences
             \<longrightarrow> cnn_raw_scores (length sentences) probs ! i = 1 / 2))
   \<and> (length sentences < length probs \<longrightarrow>
        cnn_raw_scores (length sentences) probs = take (length sentences) probs
        \<and> compute_cnn_prob_scores sentences original_text (Some probs) =
          compute_cnn_prob_scores sentences original_text
            (Some (take (length sentences) probs)))
   \<and> (probs \<noteq> [] \<and> list_all (\<lambda>p. 0 \<le> p \<and> p \<le> 1) probs \<longrightarrow>
        compute_cnn_prob_scores sentences original_text (Some probs) =
          (if sum_list (cnn_raw_scores (length sentences) probs) = 0
           then uniform (length sentences)
           else map (\<lambda>x. x / sum_list (cnn_raw_scores (length sentences) probs))
                  (cnn_raw_scores (length sentences) probs)))
   \<and> (sentences \<noteq> [] \<and> unit_probs cnn_probs \<longrightarrow>
        \<bar>sum_list (compute_cnn_prob_scores sentences original_text cnn_probs) - 1\<bar>
          \<le> 1 / 10 ^ 6)"
proof (intro conjI impI allI)
  show "compute_cnn_prob_scores sentences original_text None = uniform (length sentences)"
    by (simp add: compute_cnn_prob_scores_def uniform_def)
  show "compute_cnn_prob_scores sentences original_text (Some []) = uniform (length sentences)"
    by (simp add: compute_cnn_prob_scores_def uniform_def)
  show "cnn_raw_scores (length sentences) probs = probs"
    if "length probs = length sentences"
    using that by (simp add: cnn_raw_scores_def)
  show "cnn_raw_scores (length sentences) probs
      = probs @ replicate (length sentences - length probs) (1 / 2)"
    if "length probs < length sentences"
    using that by (simp add: cnn_raw_scores_def)
  show "cnn_raw_scores (length sentences) probs ! i = 1 / 2"
    if "length probs < length sentences" and "length probs \<le> i \<and> i < length sentences" for i
  proof -
    from that have "i - length probs < length sentences - length probs" by linarith
    then have "replicate (length sentences - length probs) (1 / 2 :: real) ! (i - length probs)
        = 1 / 2"
      by (rule nth_replicate)
    with that show ?thesis by (simp add: cnn_raw_scores_def nth_append)
  qed
  show "cnn_raw_scores (length sentences) probs = take (length sentences) probs"
    if "length sentences < length probs"
    using that by (simp add: cnn_raw_scores_def)
  show "compute_cnn_prob_scores sentences original_text (Some probs) =
      compute_cnn_prob_scores sentences original_text (Some (take (length sentences) probs))"
    if "length sentences < length probs"
  proof (cases "sentences = []")
    case True
    with that show ?thesis
      by (simp add: compute_cnn_prob_scores_def cnn_raw_scores_def normalize_scores_def
          uniform_def Let_def)
  next
    case False
    have gen: "compute_cnn_prob_scores sentences original_text (Some xs)
        = normalize_scores (length sentences) (cnn_raw_scores (length sentences) xs)"
      if "xs \<noteq> []" for xs
      using that by (simp add: compute_cnn_prob_scores_def Let_def)
    from that have ne1: "probs \<noteq> []" by auto
    with False have ne2: "take (length sentences) probs \<noteq> []" by simp
    have cut: "cnn_raw_scores (length sentences) (take (length sentences) probs)
        = take (length sentences) probs"
      using that by (simp add: cnn_raw_scores_def)
    have raw: "cnn_raw_scores (length sentences) probs = take (length sentences) probs"
      using that by (simp add: cnn_raw_scores_def)
    show ?thesis by (simp only: gen [OF ne1] gen [OF ne2] raw cut)
  qed
  show "compute_cnn_prob_scores sentences original_text (Some probs) =
      (if sum_list (cnn_raw_scores (length sentences) probs) = 0
       then uniform (length sentences)
       else map (\<lambda>x. x / sum_list (cnn_raw_scores (length sentences) probs))
              (cnn_raw_scores (length sentences) probs))"
    if "probs \<noteq> [] \<and> list_all (\<lambda>p. 0 \<le> p \<and> p \<le> 1) probs"
  proof -
    from that have "\<forall>p \<in> set probs. 0 \<le> p" by (simp add: list_all_iff)
    then have "\<forall>x \<in> set (cnn_raw_scores (length sentences) probs). 0 \<le> x"
      by (rule cnn_raw_scores_nonneg)
    then have "0 \<le> sum_list (cnn_raw_scores (length sentences) probs)"
      by (simp add: sum_list_nonneg)
    then have "(0 < sum_list (cnn_raw_scores (length sentences) probs))
        = (sum_list (cnn_raw_scores (length sentences) probs) \<noteq> 0)"
      by linarith
    with that show ?thesis
      by (simp add: compute_cnn_prob_scores_def normalize_scores_def Let_def)
  qed
  show "\<bar>sum_list (compute_cnn_prob_scores sentences original_text cnn_probs) - 1\<bar>
      \<le> 1 / 10 ^ 6"
    if "sentences \<noteq> [] \<and> unit_probs cnn_probs"
  proof -
    from that have "sum_list (compute_cnn_prob_scores sentences original_text cnn_probs) = 1"
      by (simp add: compute_cnn_prob_scores_def Let_def sum_list_uniform
          sum_list_normalize_scores split: option.splits)
    then show ?thesis by simp
  qed
qed

theorem C6_boundary_signal_witness:
  "cnn_raw_scores (length [''a'', ''b'', ''c'']) [1 / 5, 3 / 10] = [1 / 5, 3 / 10, 1 / 2]
   \<and> cnn_raw_scores (length [''a'', ''b'', ''c'']) [1 / 5, 3 / 10] ! 2 = 1 / 2
   \<and> compute_cnn_prob_scores [''a'', ''b'', ''c''] '''' (Some [1 / 5, 3 / 10])
       = [1 / 5, 3 / 10, 1 / 2]
   \<and> cnn_raw_scores (length [''a'', ''b'']) [1 / 4, 3 / 4, 1] = [1 / 4, 3 / 4]
   \<and> compute_cnn_prob_scores [''a'', ''b''] '''' (Some [1 / 4, 3 / 4, 1]) = [1 / 4, 3 / 4]
   \<and> compute_cnn_prob_scores [''a'', ''b''] '''' (Some [0, 0]) = [1 / 2, 1 / 2]
   \<and> \<bar>sum_list (compute_cnn_prob_scores [''a'', ''b''] '''' (Some [1 / 4, 3 / 4, 1])) - 1\<bar>
       \<le> 1 / 10 ^ 6"
proof -
  have short: "length [1 / 5, 3 / 10 :: real] < length [''a'', ''b'', ''c'']"
    and pos: "length [1 / 5, 3 / 10 :: real] \<le> 2 \<and> 2 < length [''a'', ''b'', ''c'']"
    by simp_all
  have long: "length [''a'', ''b''] < length [1 / 4, 3 / 4, 1 :: real]"
    by simp
  have ne: "[''a'', ''b''] \<noteq> ([] :: string list) \<and> unit_probs (Some [1 / 4, 3 / 4, 1])"
    by (simp add: unit_probs_def)
  have zero: "[0, 0] \<noteq> ([] :: real list) \<and> list_all (\<lambda>p. 0 \<le> p \<and> p \<le> 1) [0, 0 :: real]"
    by simp
  from C6_boundary_signal [of "[''a'', ''b'', ''c'']" "''''" "[1 / 5, 3 / 10]"] short pos
  have a: "cnn_raw_scores (length [''a'', ''b'', ''c'']) [1 / 5, 3 / 10]
        = [1 / 5, 3 / 10] @ replicate (length [''a'', ''b'', ''c''] - length [1 / 5, 3 / 10 :: real])
            (1 / 2)"
    and a': "cnn_raw_scores (length [''a'', ''b'', ''c'']) [1 / 5, 3 / 10] ! 2 = 1 / 2"
    by blast+
  from C6_boundary_signal [of "[''a'', ''b'']" "''''" "[1 / 4, 3 / 4, 1]"
      "Some [1 / 4, 3 / 4, 1]"] long ne
  have b: "cnn_raw_scores (length [''a'', ''b'']) [1 / 4, 3 / 4, 1]
        = take (length [''a'', ''b'']) [1 / 4, 3 / 4, 1]"
    and b': "compute_cnn_prob_scores [''a'', ''b''] '''' (Some [1 / 4, 3 / 4, 1])
        = compute_cnn_prob_scores [''a'', ''b''] ''''
            (Some (take (length [''a'', ''b'']) [1 / 4, 3 / 4, 1]))"
    and c: "\<bar>sum_list (compute_cnn_prob_scores [''a'', ''b''] '''' (Some [1 / 4, 3 / 4, 1])) - 1\<bar>
        \<le> 1 / 10 ^ 6"
    by blast+
  from C6_boundary_signal [of "[''a'', ''b'']" "''''" "[0, 0]"] zero
  have z: "compute_cnn_prob_scores [''a'', ''b''] '''' (Some [0, 0]) =
      (if sum_list (cnn_raw_scores (length [''a'', ''b'']) [0, 0]) = 0
       then uniform (length [''a'', ''b''])
       else map (\<lambda>x. x / sum_list (cnn_raw_scores (length [''a'', ''b'']) [0, 0]))
              (cnn_raw_scores (length [''a'', ''b'']) [0, 0]))"
    by blast
  have d: "compute_cnn_prob_scores [''a'', ''b'', ''c''] '''' (Some [1 / 5, 3 / 10])
       = [1 / 5, 3 / 10, 1 / 2]"
    "compute_cnn_prob_scores [''a'', ''b''] '''' (Some [1 / 4, 3 / 4]) = [1 / 4, 3 / 4]"
    by (simp_all add: run_defs)
  from a have a2: "cnn_raw_scores (length [''a'', ''b'', ''c'']) [1 / 5, 3 / 10]
      = [1 / 5, 3 / 10, 1 / 2]"
    by simp
  from b have b2: "cnn_raw_scores (length [''a'', ''b'']) [1 / 4, 3 / 4, 1] = [1 / 4, 3 / 4]"
    by simp
  from b' d(2) have b3: "compute_cnn_prob_scores [''a'', ''b''] '''' (Some [1 / 4, 3 / 4, 1])
      = [1 / 4, 3 / 4]"
    by simp
  from z have z2: "compute_cnn_prob_scores [''a'', ''b''] '''' (Some [0, 0]) = [1 / 2, 1 / 2]"
    by (simp add: cnn_raw_scores_def uniform_def)
  from a2 a' d(1) b2 b3 z2 c show ?thesis by blast
qed

text \<open>
  C7 (the code departs from the claim). The claim: coefficients that do not sum to 1
  are divided by their total and a warning is recorded, and construction never raises.
  The coefficients \<open>0, 0, 0, 0\<close> do not sum to 1; the warning is issued and the first
  division raises ZeroDivisionError. The coefficients \<open>0.1, 0.1, 0.1, 0.1\<close> of the
  scenario become \<open>0.25\<close> each, with the warning.
\<close>

theorem C7_zero_total_raises:
  "init no_libraries 0 0 0 0 False '''' = ([WeightsSum 0], Inl ZeroDivisionError)
   \<and> init no_libraries (1 / 10) (1 / 10) (1 / 10) (1 / 10) False '''' =
       ([WeightsSum (2 / 5)],
        Inr \<lparr>cnn_prob_weight = 1 / 4, textrank_weight = 1 / 4, tfidf_weight = 1 / 4,
             position_weight = 1 / 4, use_embeddings = False, embedding_model = None\<rparr>)"
  by (simp add: init_def init_from_total_def init_embeddings_def no_libraries_def)




text \<open>
  C9 (confirmed). For the empty sentence list and whatever the other arguments,
  \<open>compute_sentence_weights\<close> returns the empty weight vector and the empty component
  map, and \<open>summarize\<close> returns no sentence, the empty weight vector and the empty
  component map. Neither has a path that raises.
\<close>

theorem C9_empty_input:
  "compute_sentence_weights B S [] original_text cnn_probs = ([], Map.empty) \<and>
   summarize B S [] original_text cnn_probs compression top_k preserve_order
     = ([], [], Map.empty)"
  by (simp add: compute_sentence_weights_def summarize_def)

text \<open>
  C10 (confirmed). For every input, the weight vector and the component map that
  \<open>summarize\<close> returns are the pair that \<open>compute_sentence_weights\<close> returns on the same
  sentences, text and boundary probabilities.
\<close>

theorem C10_summarize_weights:
  "snd (summarize B S sentences original_text cnn_probs compression top_k preserve_order) =
   compute_sentence_weights B S sentences original_text cnn_probs"
proof (cases "sentences = []")
  case True
  then show ?thesis by (simp add: summarize_def compute_sentence_weights_def)
next
  case False
  then show ?thesis by (simp add: summarize_def Let_def split: prod.splits)
qed

end
